theory Spec2Isabelle
  imports Main "HOL-Library.AList"
begin

section \<open>Data model of the matrix graph store (MixedMatrix.go)\<close>

text \<open>
  Modelled from the spec: the declaration of \<open>VertexId\<close> is not part of the two source
  files. The spec calls it an opaque, externally assigned, comparable value, and the source
  compares two ids with \<open>==\<close>, \<open><\<close>, \<open>>\<close> and \<open>>=\<close>. The embedding therefore takes the id
  type as a type parameter \<open>'v\<close> of sort \<open>linorder\<close>.

  Modelled from the spec: the declaration of \<open>MixedConnectionType\<close> and of its constants is
  not part of the two source files either. The spec lists four slot states (none, undirected
  edge, directed-forward, directed-reversed) and says that a fresh array holds \<open>none\<close> in every
  slot, so \<open>CT_NONE\<close> is the zero value that Go's \<open>make\<close> fills the array with.
\<close>

datatype MixedConnectionType = CT_NONE | CT_UNDIRECTED | CT_DIRECTED | CT_DIRECTED_REVERSED

text \<open>
  Every \<open>panic\<close> of the source is a value of \<open>error\<close>. The constructors follow the failure
  kinds of the spec; the source's messages are given with each use. \<open>IndexOutOfRange\<close> is the
  run-time panic of Go for \<open>gr.nodes[conn]\<close> with \<open>conn\<close> outside \<open>[0, len(gr.nodes))\<close>.
\<close>

datatype error =
    InvalidArgument
  | AlreadyExists
  | CapacityExceeded
  | NotFound
  | DuplicateConnection MixedConnectionType
  | Unimplemented
  | IndexOutOfRange
  | MakeLenOutOfRange

subsection \<open>Go's integers\<close>

text \<open>
  Go's \<open>int\<close> has 64 bits on a 64-bit platform: a value is an integer in \<open>[-2^63, 2^63)\<close>, and
  \<open>+\<close>, \<open>-\<close> and \<open>*\<close> wrap around in two's complement. \<open>wrap64\<close> is the value that the 64
  low bits of an integer stand for. \<open>/\<close> truncates towards zero; the source divides by the
  constant 2 only. Every arithmetic operation of the source is one of the four operations
  below, so that each intermediate result is reduced as the machine reduces it.
\<close>

definition wrap64 :: "int \<Rightarrow> int" where
  "wrap64 x = (x + 2 ^ 63) mod 2 ^ 64 - 2 ^ 63"

definition add64 :: "int \<Rightarrow> int \<Rightarrow> int" where
  "add64 x y = wrap64 (x + y)"

definition sub64 :: "int \<Rightarrow> int \<Rightarrow> int" where
  "sub64 x y = wrap64 (x - y)"

definition mul64 :: "int \<Rightarrow> int \<Rightarrow> int" where
  "mul64 x y = wrap64 (x * y)"

definition div64 :: "int \<Rightarrow> int \<Rightarrow> int" where
  "div64 x y = wrap64 (sgn x * sgn y * (abs x div abs y))"

text \<open>
  \<open>make([]T, n)\<close> panics with "makeslice: len out of range" when \<open>n\<close> is negative or when the
  slice would need more than the run time's \<open>maxAlloc\<close> bytes, which is \<open>2^48\<close> on the 64-bit
  platforms; an element has at least one byte, so a length above \<open>maxAlloc\<close> always panics.
\<close>

definition maxAlloc :: int where
  "maxAlloc = 2 ^ 48"

text \<open>
  The struct \<open>MixedMatrix\<close>. The field \<open>size\<close> is called \<open>size_m\<close> here. The Go map
  \<open>VertexIds\<close> is an association list in order of insertion: \<open>map_of\<close> is the lookup,
  \<open>AList.update\<close> the assignment \<open>gr.VertexIds[node] = id\<close> and \<open>length\<close> is \<open>len\<close> (the keys
  of the list stay distinct, since \<open>AList.update\<close> replaces the entry of a key already there).
  The fields of type \<open>int\<close> hold integers, and every operation on them is one of \<open>add64\<close>,
  \<open>sub64\<close>, \<open>mul64\<close> and \<open>div64\<close>.
\<close>

record 'v MixedMatrix =
  nodes :: "MixedConnectionType list"
  size_m :: int
  VertexIds :: "('v \<times> int) list"
  edgesCnt :: int
  arcsCnt :: int

text \<open>A call returns the store as the call leaves it, also when it panics, and its outcome.\<close>

type_synonym ('v, 'a) outcome = "'v MixedMatrix \<times> (error + 'a)"

text \<open>
  \<open>NewMixedMatrix\<close>, lines 20 to 29: the panic on \<open>size <= 0\<close>, then
  \<open>make([]MixedConnectionType, size*(size-1)/2)\<close> with the length computed in 64 bits.
\<close>

definition NewMixedMatrix :: "int \<Rightarrow> error + 'v MixedMatrix" where
  "NewMixedMatrix sz =
     (if sz \<le> 0 then Inl InvalidArgument
      else (let n = div64 (mul64 sz (sub64 sz 1)) 2
            in if n < 0 \<or> maxAlloc < n then Inl MakeLenOutOfRange
               else Inr \<lparr> nodes = replicate (nat n) CT_NONE,
                          size_m = sz,
                          VertexIds = [],
                          edgesCnt = 0,
                          arcsCnt = 0 \<rparr>))"

definition len_ids :: "'v MixedMatrix \<Rightarrow> int" where
  "len_ids gr = int (length (VertexIds gr))"

definition AddNode :: "'v \<Rightarrow> 'v MixedMatrix \<Rightarrow> ('v, unit) outcome" where
  "AddNode node gr =
     (if map_of (VertexIds gr) node \<noteq> None then (gr, Inl AlreadyExists)
      else if len_ids gr = size_m gr then (gr, Inl CapacityExceeded)
      else (gr\<lparr>VertexIds := AList.update node (len_ids gr) (VertexIds gr)\<rparr>, Inr ()))"

definition Order :: "'v MixedMatrix \<Rightarrow> int" where
  "Order gr = len_ids gr"

definition RemoveNode :: "'v \<Rightarrow> 'v MixedMatrix \<Rightarrow> ('v, unit) outcome" where
  "RemoveNode node gr = (gr, Inl Unimplemented)"

definition CheckNode :: "'v \<Rightarrow> 'v MixedMatrix \<Rightarrow> bool" where
  "CheckNode node g = (map_of (VertexIds g) node \<noteq> None)"

subsection \<open>The shared indexing routine\<close>

text \<open>
  Line 448: \<open>connId := id1*(gr.size-1) + id2 - 1 - id1*(id1+1)/2\<close>, in the order in which Go
  evaluates it: \<open>((id1*(size-1) + id2) - 1) - (id1*(id1+1))/2\<close>.
\<close>

definition connId :: "int \<Rightarrow> int \<Rightarrow> int \<Rightarrow> int" where
  "connId sz id1 id2 =
     sub64 (sub64 (add64 (mul64 id1 (sub64 sz 1)) id2) 1) (div64 (mul64 id1 (add64 id1 1)) 2)"

text \<open>
  The formula of the spec, \<open>slot = lo*(capacity-1) + hi - 1 - lo*(lo+1)/2\<close>, over the
  integers; the facts on the packed index below compare \<open>connId\<close> with it.
\<close>

definition spec_slot :: "int \<Rightarrow> int \<Rightarrow> int \<Rightarrow> int" where
  "spec_slot capacity lo hi = lo * (capacity - 1) + hi - 1 - lo * (lo + 1) div 2"

text \<open>
  Lines 432 to 440: an id that the lookup did not find gets the index \<open>len(gr.VertexIds)\<close>
  and is stored in the map.
\<close>

definition assign_id :: "'v \<Rightarrow> int option \<Rightarrow> 'v MixedMatrix \<Rightarrow> int \<times> 'v MixedMatrix" where
  "assign_id node found gr =
     (case found of
        Some i \<Rightarrow> (i, gr)
      | None \<Rightarrow> (len_ids gr, gr\<lparr>VertexIds := AList.update node (len_ids gr) (VertexIds gr)\<rparr>))"

text \<open>
  \<open>getConnectionId\<close>, lines 391 to 450. Both lookups are done first, on the store as the
  call finds it; the checks follow in the order of the source; every panic of the routine comes
  before its first assignment.
\<close>

definition getConnectionId ::
    "'v \<Rightarrow> 'v \<Rightarrow> bool \<Rightarrow> 'v MixedMatrix \<Rightarrow> ('v, int) outcome" where
  "getConnectionId node1 node2 create gr =
     (let found1 = map_of (VertexIds gr) node1;
          found2 = map_of (VertexIds gr) node2;
          node1Exist = (found1 \<noteq> None);
          node2Exist = (found2 \<noteq> None)
      in if node1 = node2 then (gr, Inl InvalidArgument)
         else if \<not> create \<and> \<not> node1Exist then (gr, Inl NotFound)
         else if \<not> create \<and> \<not> node2Exist then (gr, Inl NotFound)
         else if create \<and> (\<not> node1Exist \<or> \<not> node2Exist) \<and>
                 (if node1Exist \<and> node2Exist then sub64 (size_m gr) (len_ids gr) < 2
                  else sub64 (size_m gr) (len_ids gr) < 1)
           then (gr, Inl CapacityExceeded)
         else
           (let (id1, gr1) = assign_id node1 found1 gr;
                (id2, gr2) = assign_id node2 found2 gr1
            in (gr2, Inr (if id1 > id2 then connId (size_m gr2) id2 id1
                          else connId (size_m gr2) id1 id2))))"

text \<open>\<open>gr.nodes[conn]\<close> is defined for \<open>0 \<le> conn < len(gr.nodes)\<close> and panics otherwise.\<close>

definition in_range :: "'v MixedMatrix \<Rightarrow> int \<Rightarrow> bool" where
  "in_range gr conn = (0 \<le> conn \<and> conn < int (length (nodes gr)))"

subsection \<open>Edges\<close>

definition AddEdge :: "'v \<Rightarrow> 'v \<Rightarrow> 'v MixedMatrix \<Rightarrow> ('v, unit) outcome" where
  "AddEdge node1 node2 gr =
     (case getConnectionId node1 node2 True gr of
        (gr1, Inl e) \<Rightarrow> (gr1, Inl e)
      | (gr1, Inr conn) \<Rightarrow>
          if \<not> in_range gr1 conn then (gr1, Inl IndexOutOfRange)
          else if nodes gr1 ! nat conn \<noteq> CT_NONE
            then (gr1, Inl (DuplicateConnection (nodes gr1 ! nat conn)))
          else (gr1\<lparr>nodes := (nodes gr1)[nat conn := CT_UNDIRECTED],
                     edgesCnt := add64 (edgesCnt gr1) 1\<rparr>, Inr ()))"

text \<open>Line 154 of the source passes \<open>true\<close> for \<open>create\<close>.\<close>

definition RemoveEdge :: "'v \<Rightarrow> 'v \<Rightarrow> 'v MixedMatrix \<Rightarrow> ('v, unit) outcome" where
  "RemoveEdge node1 node2 gr =
     (case getConnectionId node1 node2 True gr of
        (gr1, Inl e) \<Rightarrow> (gr1, Inl e)
      | (gr1, Inr conn) \<Rightarrow>
          if \<not> in_range gr1 conn then (gr1, Inl IndexOutOfRange)
          else if nodes gr1 ! nat conn \<noteq> CT_UNDIRECTED then (gr1, Inl NotFound)
          else (gr1\<lparr>nodes := (nodes gr1)[nat conn := CT_NONE],
                     edgesCnt := sub64 (edgesCnt gr1) 1\<rparr>, Inr ()))"

definition EdgesCnt :: "'v MixedMatrix \<Rightarrow> int" where
  "EdgesCnt gr = edgesCnt gr"

definition CheckEdge :: "'v \<Rightarrow> 'v \<Rightarrow> 'v MixedMatrix \<Rightarrow> ('v, bool) outcome" where
  "CheckEdge node1 node2 gr =
     (if node1 = node2 then (gr, Inr False)
      else case getConnectionId node1 node2 False gr of
             (gr1, Inl e) \<Rightarrow> (gr1, Inl e)
           | (gr1, Inr conn) \<Rightarrow>
               if \<not> in_range gr1 conn then (gr1, Inl IndexOutOfRange)
               else (gr1, Inr (nodes gr1 ! nat conn = CT_UNDIRECTED)))"

subsection \<open>Arcs\<close>

text \<open>Lines 216, 241 and 280 compare the two vertex ids: \<open>tail < head\<close>.\<close>

definition AddArc :: "'v::linorder \<Rightarrow> 'v \<Rightarrow> 'v MixedMatrix \<Rightarrow> ('v, unit) outcome" where
  "AddArc tail head gr =
     (case getConnectionId tail head True gr of
        (gr1, Inl e) \<Rightarrow> (gr1, Inl e)
      | (gr1, Inr conn) \<Rightarrow>
          if \<not> in_range gr1 conn then (gr1, Inl IndexOutOfRange)
          else if nodes gr1 ! nat conn \<noteq> CT_NONE
            then (gr1, Inl (DuplicateConnection (nodes gr1 ! nat conn)))
          else (gr1\<lparr>nodes := (nodes gr1)[nat conn :=
                                (if tail < head then CT_DIRECTED else CT_DIRECTED_REVERSED)],
                     arcsCnt := add64 (arcsCnt gr1) 1\<rparr>, Inr ()))"

definition RemoveArc :: "'v::linorder \<Rightarrow> 'v \<Rightarrow> 'v MixedMatrix \<Rightarrow> ('v, unit) outcome" where
  "RemoveArc tail head gr =
     (case getConnectionId tail head True gr of
        (gr1, Inl e) \<Rightarrow> (gr1, Inl e)
      | (gr1, Inr conn) \<Rightarrow>
          (let expectedType = (if tail < head then CT_DIRECTED else CT_DIRECTED_REVERSED)
           in if \<not> in_range gr1 conn then (gr1, Inl IndexOutOfRange)
              else if nodes gr1 ! nat conn \<noteq> expectedType then (gr1, Inl NotFound)
              else (gr1\<lparr>nodes := (nodes gr1)[nat conn := CT_NONE],
                         arcsCnt := sub64 (arcsCnt gr1) 1\<rparr>, Inr ())))"

definition ArcsCnt :: "'v MixedMatrix \<Rightarrow> int" where
  "ArcsCnt gr = arcsCnt gr"

definition CheckArc :: "'v::linorder \<Rightarrow> 'v \<Rightarrow> 'v MixedMatrix \<Rightarrow> ('v, bool) outcome" where
  "CheckArc tail head gr =
     (let checkingType = (if tail < head then CT_DIRECTED else CT_DIRECTED_REVERSED)
      in case getConnectionId tail head False gr of
           (gr1, Inl e) \<Rightarrow> (gr1, Inl e)
         | (gr1, Inr conn) \<Rightarrow>
             if \<not> in_range gr1 conn then (gr1, Inl IndexOutOfRange)
             else (gr1, Inr (nodes gr1 ! nat conn = checkingType)))"

subsection \<open>Mixed-specific reader\<close>

definition CheckEdgeType ::
    "'v::linorder \<Rightarrow> 'v \<Rightarrow> 'v MixedMatrix \<Rightarrow> ('v, MixedConnectionType) outcome" where
  "CheckEdgeType tail head gr =
     (case getConnectionId tail head False gr of
        (gr1, Inl e) \<Rightarrow> (gr1, Inl e)
      | (gr1, Inr conn) \<Rightarrow>
          if \<not> in_range gr1 conn then (gr1, Inl IndexOutOfRange)
          else (let connType = nodes gr1 ! nat conn
                in if connType = CT_DIRECTED \<and> tail > head then (gr1, Inr CT_DIRECTED_REVERSED)
                   else (gr1, Inr connType)))"

definition ConnectionsCnt :: "'v MixedMatrix \<Rightarrow> int" where
  "ConnectionsCnt g = add64 (arcsCnt g) (edgesCnt g)"


section \<open>Sequences of public calls\<close>

text \<open>
  A public call of the store, and the store a call leaves behind whether it returns or panics.
  A sequence of calls is run from left to right; a panic does not stop the sequence, since the
  caller may recover from it and go on using the store.
\<close>

datatype 'v call =
    CallAddNode 'v
  | CallRemoveNode 'v
  | CallAddEdge 'v 'v
  | CallRemoveEdge 'v 'v
  | CallAddArc 'v 'v
  | CallRemoveArc 'v 'v
  | CallCheckEdge 'v 'v
  | CallCheckArc 'v 'v
  | CallCheckEdgeType 'v 'v

fun after_call :: "'v::linorder call \<Rightarrow> 'v MixedMatrix \<Rightarrow> 'v MixedMatrix" where
  "after_call (CallAddNode v) gr = fst (AddNode v gr)"
| "after_call (CallRemoveNode v) gr = fst (RemoveNode v gr)"
| "after_call (CallAddEdge u v) gr = fst (AddEdge u v gr)"
| "after_call (CallRemoveEdge u v) gr = fst (RemoveEdge u v gr)"
| "after_call (CallAddArc u v) gr = fst (AddArc u v gr)"
| "after_call (CallRemoveArc u v) gr = fst (RemoveArc u v gr)"
| "after_call (CallCheckEdge u v) gr = fst (CheckEdge u v gr)"
| "after_call (CallCheckArc u v) gr = fst (CheckArc u v gr)"
| "after_call (CallCheckEdgeType u v) gr = fst (CheckEdgeType u v gr)"

fun after_calls :: "'v::linorder call list \<Rightarrow> 'v MixedMatrix \<Rightarrow> 'v MixedMatrix" where
  "after_calls [] gr = gr"
| "after_calls (c # cs) gr = after_calls cs (after_call c gr)"

text \<open>
  The number of slots whose state is not \<open>CT_NONE\<close>, the number of slots that hold an edge and
  the number of slots that hold an arc. \<open>counters_exact\<close> says that the two counters are these
  numbers, in an array short enough for a 64-bit counter.
\<close>

definition occupied :: "'v MixedMatrix \<Rightarrow> int" where
  "occupied gr = int (length (filter (\<lambda>t. t \<noteq> CT_NONE) (nodes gr)))"

definition undirected_slots :: "'v MixedMatrix \<Rightarrow> int" where
  "undirected_slots gr = int (length (filter (\<lambda>t. t = CT_UNDIRECTED) (nodes gr)))"

definition directed_slots :: "'v MixedMatrix \<Rightarrow> int" where
  "directed_slots gr =
     int (length (filter (\<lambda>t. t = CT_DIRECTED \<or> t = CT_DIRECTED_REVERSED) (nodes gr)))"

definition counters_exact :: "'v MixedMatrix \<Rightarrow> bool" where
  "counters_exact gr =
     (edgesCnt gr = undirected_slots gr \<and> arcsCnt gr = directed_slots gr \<and>
      int (length (nodes gr)) < 2 ^ 62)"

section \<open>The arc exclusion view (DirectedGraphArcsFilter)\<close>

text \<open>
  Modelled from the spec: the declarations of \<open>Connection\<close> and of the interface
  \<open>DirectedGraphReader\<close> are not part of the two source files. The source builds a
  \<open>Connection\<close> from two ids and reads its fields \<open>Tail\<close> and \<open>Head\<close>. Of the wrapped
  reader, the iteration of the view uses \<open>ConnectionsIter()\<close> only, so the reader is given here
  by the finite sequence of connections which that channel delivers.
\<close>

record 'v Connection =
  Tail :: 'v
  Head :: 'v

record 'v DirectedGraphReader =
  reader_ConnectionsIter :: "'v Connection list"

record 'v DirectedGraphArcsFilter =
  reader :: "'v DirectedGraphReader"
  arcs :: "'v Connection list"

text \<open>
  \<open>DirectedGraphArcsFilter.ConnectionsIter\<close>, lines 95 to 108 of the second source file. The
  channel \<open>ch\<close> is the list of the values sent on it so far. The inner loop runs over
  \<open>filter.arcs\<close>; its body is one \<open>if\<close> whose branch is \<open>continue\<close>, which goes on with the
  next excluded arc. The outer loop runs over the connections of the wrapped reader; after its
  inner loop the body ends. There is no send on \<open>ch\<close> in either loop; \<open>close(ch)\<close> follows.
  The receiver \<open>filter\<close> is called \<open>flt\<close> here.
\<close>

fun arcs_loop :: "'v Connection \<Rightarrow> 'v Connection list \<Rightarrow> 'v Connection list \<Rightarrow> 'v Connection list" where
  "arcs_loop conn [] ch = ch"
| "arcs_loop conn (filteringConnection # rest) ch =
     (if Head filteringConnection = Head conn \<and> Tail filteringConnection = Tail conn
      then arcs_loop conn rest ch
      else arcs_loop conn rest ch)"

fun conns_loop :: "'v Connection list \<Rightarrow> 'v Connection list \<Rightarrow> 'v Connection list \<Rightarrow> 'v Connection list" where
  "conns_loop [] excluded ch = ch"
| "conns_loop (conn # conns) excluded ch = conns_loop conns excluded (arcs_loop conn excluded ch)"

definition ArcsFilter_ConnectionsIter :: "'v DirectedGraphArcsFilter \<Rightarrow> 'v Connection list" where
  "ArcsFilter_ConnectionsIter flt =
     conns_loop (reader_ConnectionsIter (reader flt)) (arcs flt) []"

section \<open>Concrete stores\<close>

text \<open>
  Stores used to evaluate the operations, with vertex ids of type \<open>nat\<close>. Each is the result
  of the calls named with it (lemmas \<open>store_new4_built\<close> to \<open>store_5_built\<close> below).
\<close>

text \<open>\<open>NewMixedMatrix(4)\<close> and \<open>NewMixedMatrix(3)\<close>.\<close>

definition store_new4 :: "nat MixedMatrix" where
  "store_new4 = \<lparr> nodes = [CT_NONE, CT_NONE, CT_NONE, CT_NONE, CT_NONE, CT_NONE], size_m = 4,
                   VertexIds = [], edgesCnt = 0, arcsCnt = 0 \<rparr>"

definition store_new3 :: "nat MixedMatrix" where
  "store_new3 = \<lparr> nodes = [CT_NONE, CT_NONE, CT_NONE], size_m = 3,
                   VertexIds = [], edgesCnt = 0, arcsCnt = 0 \<rparr>"

text \<open>Capacity 4 with the vertices A = 1, B = 2, C = 3, D = 4 added in this order.\<close>

definition store_ABCD :: "nat MixedMatrix" where
  "store_ABCD = \<lparr> nodes = [CT_NONE, CT_NONE, CT_NONE, CT_NONE, CT_NONE, CT_NONE], size_m = 4,
                   VertexIds = [(1, 0), (2, 1), (3, 2), (4, 3)], edgesCnt = 0, arcsCnt = 0 \<rparr>"

text \<open>The same after \<open>AddArc(C, A)\<close>: the pair of A and C has slot 1.\<close>

definition store_ABCD_arc_CA :: "nat MixedMatrix" where
  "store_ABCD_arc_CA =
     \<lparr> nodes = [CT_NONE, CT_DIRECTED_REVERSED, CT_NONE, CT_NONE, CT_NONE, CT_NONE], size_m = 4,
       VertexIds = [(1, 0), (2, 1), (3, 2), (4, 3)], edgesCnt = 0, arcsCnt = 1 \<rparr>"

text \<open>Capacity 4 with the vertex 5 added before the vertex 3: index order and id order disagree.\<close>

definition store_53 :: "nat MixedMatrix" where
  "store_53 = \<lparr> nodes = [CT_NONE, CT_NONE, CT_NONE, CT_NONE, CT_NONE, CT_NONE], size_m = 4,
                 VertexIds = [(5, 0), (3, 1)], edgesCnt = 0, arcsCnt = 0 \<rparr>"

definition store_53_arc :: "nat MixedMatrix" where
  "store_53_arc = \<lparr> nodes = [CT_DIRECTED_REVERSED, CT_NONE, CT_NONE, CT_NONE, CT_NONE, CT_NONE],
                     size_m = 4, VertexIds = [(5, 0), (3, 1)], edgesCnt = 0, arcsCnt = 1 \<rparr>"

text \<open>
  \<open>NewMixedMatrix(4294967297)\<close>, the capacity \<open>2^32 + 1\<close>: the product \<open>size*(size-1)\<close> is
  \<open>2^64 + 2^32\<close> and wraps to \<open>2^32\<close>, so the array has \<open>2^31\<close> slots.
\<close>

definition store_wrapped :: "nat MixedMatrix" where
  "store_wrapped = \<lparr> nodes = replicate 2147483648 CT_NONE, size_m = 4294967297,
                      VertexIds = [], edgesCnt = 0, arcsCnt = 0 \<rparr>"

text \<open>Capacity 2 with the single vertex 5: room for one more vertex.\<close>

definition store_5 :: "nat MixedMatrix" where
  "store_5 = \<lparr> nodes = [CT_NONE], size_m = 2, VertexIds = [(5, 0)], edgesCnt = 0, arcsCnt = 0 \<rparr>"

text \<open>
  A sequence of calls on the fresh store of capacity 4 in which \<open>AddEdge(2, 1)\<close> fails as a
  duplicate, \<open>RemoveEdge(3, 4)\<close> fails as not found and \<open>AddEdge(4, 4)\<close> fails on equal ids.
\<close>

definition demo_calls :: "nat call list" where
  "demo_calls = [CallAddNode 1, CallAddArc 3 1, CallAddEdge 1 2, CallAddEdge 2 1,
                 CallRemoveEdge 3 4, CallAddEdge 4 4, CallAddArc 2 3, CallRemoveArc 3 1]"

lemmas eval_defs = NewMixedMatrix_def AddNode_def RemoveNode_def AddEdge_def RemoveEdge_def
  AddArc_def RemoveArc_def CheckEdge_def CheckArc_def CheckEdgeType_def getConnectionId_def
  assign_id_def len_ids_def connId_def in_range_def Order_def Let_def
  wrap64_def add64_def sub64_def mul64_def div64_def maxAlloc_def

lemma store_new4_built: "NewMixedMatrix 4 = Inr store_new4"
  by (simp add: eval_defs store_new4_def eval_nat_numeral)

lemma store_new3_built: "NewMixedMatrix 3 = Inr store_new3"
  by (simp add: eval_defs store_new3_def eval_nat_numeral)

lemma store_wrapped_built: "NewMixedMatrix 4294967297 = Inr store_wrapped"
  by (simp add: eval_defs store_wrapped_def)

lemma store_ABCD_built:
  "\<exists>g1 g2 g3. AddNode 1 store_new4 = (g1, Inr ()) \<and> AddNode 2 g1 = (g2, Inr ()) \<and>
      AddNode 3 g2 = (g3, Inr ()) \<and> AddNode 4 g3 = (store_ABCD, Inr ())"
  by (simp add: eval_defs store_new4_def store_ABCD_def)

lemma store_ABCD_arc_CA_built: "AddArc 3 1 store_ABCD = (store_ABCD_arc_CA, Inr ())"
  by (simp add: eval_defs store_ABCD_def store_ABCD_arc_CA_def)

lemma store_53_built:
  "\<exists>g1. AddNode 5 store_new4 = (g1, Inr ()) \<and> AddNode 3 g1 = (store_53, Inr ())"
  by (simp add: eval_defs store_new4_def store_53_def)

lemma store_53_arc_built: "AddArc 5 3 store_53 = (store_53_arc, Inr ())"
  by (simp add: eval_defs store_53_def store_53_arc_def)

lemma store_5_built:
  "\<exists>g0. NewMixedMatrix 2 = Inr g0 \<and> AddNode 5 g0 = (store_5, Inr ())"
  by (simp add: eval_defs store_5_def eval_nat_numeral)

section \<open>Equal ids\<close>

lemma getConnectionId_equal:
  "getConnectionId u u create gr = (gr, Inl InvalidArgument)"
  by (simp add: getConnectionId_def)

text \<open>
  Claim C9. For every store and every id \<open>u\<close>, \<open>CheckEdge u u\<close> returns false and signals no
  error, while \<open>AddEdge\<close>, \<open>RemoveEdge\<close>, \<open>AddArc\<close>, \<open>RemoveArc\<close>, \<open>CheckArc\<close> and
  \<open>CheckEdgeType\<close> on \<open>(u, u)\<close> all fail with the panic "Equal nodes." of the indexing routine;
  none of the seven calls changes the store, so no loop is created or reported.
\<close>

theorem equal_ids_rejected:
  "CheckEdge u u gr = (gr, Inr False) \<and>
   AddEdge u u gr = (gr, Inl InvalidArgument) \<and>
   RemoveEdge u u gr = (gr, Inl InvalidArgument) \<and>
   AddArc u u gr = (gr, Inl InvalidArgument) \<and>
   RemoveArc u u gr = (gr, Inl InvalidArgument) \<and>
   CheckArc u u gr = (gr, Inl InvalidArgument) \<and>
   CheckEdgeType u u gr = (gr, Inl InvalidArgument)"
  by (simp add: CheckEdge_def AddEdge_def RemoveEdge_def AddArc_def RemoveArc_def
      CheckArc_def CheckEdgeType_def getConnectionId_equal)


theorem equal_ids_rejected_witness:
  "CheckEdge 3 3 store_ABCD = (store_ABCD, Inr False) \<and>
   AddEdge 3 3 store_ABCD = (store_ABCD, Inl InvalidArgument) \<and>
   RemoveEdge 3 3 store_ABCD = (store_ABCD, Inl InvalidArgument) \<and>
   AddArc 3 3 store_ABCD = (store_ABCD, Inl InvalidArgument) \<and>
   RemoveArc 3 3 store_ABCD = (store_ABCD, Inl InvalidArgument) \<and>
   CheckArc 3 3 store_ABCD = (store_ABCD, Inl InvalidArgument) \<and>
   CheckEdgeType 3 3 store_ABCD = (store_ABCD, Inl InvalidArgument)"
  by (rule equal_ids_rejected)

section \<open>Facts about the indexing routine\<close>

lemma getConnectionId_mapped:
  assumes "map_of (VertexIds gr) node1 = Some id1" "map_of (VertexIds gr) node2 = Some id2"
    and "node1 \<noteq> node2"
  shows "getConnectionId node1 node2 create gr =
           (gr, Inr (if id1 > id2 then connId (size_m gr) id2 id1 else connId (size_m gr) id1 id2))"
  using assms by (simp add: getConnectionId_def assign_id_def)

lemma getConnectionId_unmapped:
  assumes "node1 \<noteq> node2"
    and "map_of (VertexIds gr) node1 = None \<or> map_of (VertexIds gr) node2 = None"
  shows "getConnectionId node1 node2 False gr = (gr, Inl NotFound)"
  using assms by (auto simp add: getConnectionId_def Let_def)

text \<open>What a call with creation allowed has done when it returns a slot.\<close>

lemma getConnectionId_create_Inr:
  assumes "getConnectionId node1 node2 True gr = (gr', Inr c)"
  shows "map_of (VertexIds gr') node1 \<noteq> None" and "map_of (VertexIds gr') node2 \<noteq> None"
    and "c = (if the (map_of (VertexIds gr') node1) > the (map_of (VertexIds gr') node2)
              then connId (size_m gr') (the (map_of (VertexIds gr') node2))
                     (the (map_of (VertexIds gr') node1))
              else connId (size_m gr') (the (map_of (VertexIds gr') node1))
                     (the (map_of (VertexIds gr') node2)))"
    and "node1 \<noteq> node2"
  using assms
  by (auto simp add: getConnectionId_def assign_id_def Let_def update_conv' len_ids_def
      split: if_splits option.splits)

text \<open>The routine writes the vertex map only.\<close>

lemma getConnectionId_frame:
  assumes "getConnectionId node1 node2 create gr = (gr', r)"
  shows "nodes gr' = nodes gr" and "size_m gr' = size_m gr"
    and "edgesCnt gr' = edgesCnt gr" and "arcsCnt gr' = arcsCnt gr"
  using assms
  by (auto simp add: getConnectionId_def assign_id_def Let_def split: if_splits option.splits)

text \<open>
  Once a creating call has returned slot \<open>conn\<close>, a call without creation returns the same
  slot for the pair in either order, on any store with the same vertex map and capacity.
\<close>

lemma getConnectionId_again:
  assumes "getConnectionId node1 node2 True gr = (gr1, Inr conn)"
    and "VertexIds gr2 = VertexIds gr1" and "size_m gr2 = size_m gr1"
  shows "getConnectionId node1 node2 False gr2 = (gr2, Inr conn)"
    and "getConnectionId node2 node1 False gr2 = (gr2, Inr conn)"
proof -
  from getConnectionId_create_Inr(1,2)[OF assms(1)]
  obtain id1 id2 where ids: "map_of (VertexIds gr1) node1 = Some id1"
      "map_of (VertexIds gr1) node2 = Some id2"
    by auto
  have ne: "node1 \<noteq> node2" by (rule getConnectionId_create_Inr(4)[OF assms(1)])
  have c: "conn = (if id1 > id2 then connId (size_m gr1) id2 id1 else connId (size_m gr1) id1 id2)"
    using getConnectionId_create_Inr(3)[OF assms(1)] ids by simp
  show "getConnectionId node1 node2 False gr2 = (gr2, Inr conn)"
    using getConnectionId_mapped[of gr2 node1 id1 node2 id2 False] ids ne c assms(2,3) by simp
  show "getConnectionId node2 node1 False gr2 = (gr2, Inr conn)"
    using getConnectionId_mapped[of gr2 node2 id2 node1 id1 False] ids ne c assms(2,3)
    by (auto simp add: not_less)
qed

text \<open>Without creation the routine leaves the store as it was, whatever it returns.\<close>

lemma getConnectionId_no_create_unchanged: "fst (getConnectionId node1 node2 False gr) = gr"
  by (auto simp add: getConnectionId_def assign_id_def Let_def split: option.splits)

text \<open>What the constructor has checked and built when it returns a store.\<close>

lemma NewMixedMatrix_Inr:
  assumes "NewMixedMatrix sz = Inr g"
  shows "0 < sz" and "size_m g = sz" and "VertexIds g = []"
    and "edgesCnt g = 0" and "arcsCnt g = 0"
    and "0 \<le> div64 (mul64 sz (sub64 sz 1)) 2" and "div64 (mul64 sz (sub64 sz 1)) 2 \<le> maxAlloc"
    and "nodes g = replicate (nat (div64 (mul64 sz (sub64 sz 1)) 2)) CT_NONE"
  using assms by (auto simp add: NewMixedMatrix_def Let_def split: if_splits)

lemma in_range_nat: "in_range gr conn \<Longrightarrow> nat conn < length (nodes gr)"
  by (auto simp add: in_range_def)

lemma AddArc_success:
  assumes "AddArc tail head gr = (gr', Inr ())"
  obtains gr1 conn where "getConnectionId tail head True gr = (gr1, Inr conn)"
    and "in_range gr1 conn"
    and "gr' = gr1\<lparr>nodes := (nodes gr1)[nat conn :=
                      (if tail < head then CT_DIRECTED else CT_DIRECTED_REVERSED)],
                    arcsCnt := add64 (arcsCnt gr1) 1\<rparr>"
  using assms
  by (auto simp add: AddArc_def split: prod.splits sum.splits if_splits)

section \<open>The packed index\<close>

subsection \<open>The formula over the integers\<close>

text \<open>
  Twice the packed index, free of the division: \<open>lo * (lo + 1)\<close> is even. Row \<open>lo\<close> of the
  upper triangle starts at half of \<open>lo * (2 * sz - 1 - lo)\<close>.
\<close>

lemma spec_slot_double:
  "2 * spec_slot sz lo hi = 2 * lo * (sz - 1) + 2 * hi - 2 - lo * (lo + 1)"
proof -
  have "2 * (lo * (lo + 1) div 2) = lo * (lo + 1)" by simp
  then show ?thesis unfolding spec_slot_def by (simp add: algebra_simps)
qed

lemma row_start_mono:
  fixes a b sz :: int
  assumes "a \<le> b" "b \<le> sz - 1"
  shows "a * (2 * sz - 1 - a) \<le> b * (2 * sz - 1 - b)"
proof -
  have "0 \<le> (b - a) * (2 * sz - 1 - a - b)"
    using assms by (intro mult_nonneg_nonneg) auto
  then show ?thesis by (simp add: algebra_simps)
qed

lemma spec_slot_lower:
  assumes "lo < hi"
  shows "lo * (2 * sz - 1 - lo) \<le> 2 * spec_slot sz lo hi"
  using assms by (simp add: spec_slot_double algebra_simps)

lemma spec_slot_upper:
  assumes "hi < sz"
  shows "2 * spec_slot sz lo hi + 2 \<le> (lo + 1) * (2 * sz - 1 - (lo + 1))"
  using assms by (simp add: spec_slot_double algebra_simps)

text \<open>Every slot of a row lies below every slot of a later row.\<close>

lemma spec_slot_row_less:
  assumes "lo < lo'" "hi < sz" "lo' < hi'" "hi' < sz"
  shows "spec_slot sz lo hi < spec_slot sz lo' hi'"
proof -
  have "2 * spec_slot sz lo hi + 2 \<le> (lo + 1) * (2 * sz - 1 - (lo + 1))"
    by (rule spec_slot_upper[OF assms(2)])
  also have "\<dots> \<le> lo' * (2 * sz - 1 - lo')" using assms by (intro row_start_mono) auto
  also have "\<dots> \<le> 2 * spec_slot sz lo' hi'" using assms by (simp add: spec_slot_lower)
  finally show ?thesis by simp
qed

lemma spec_slot_inj:
  assumes "lo < hi" "hi < sz" "lo' < hi'" "hi' < sz"
    and "spec_slot sz lo hi = spec_slot sz lo' hi'"
  shows "lo = lo' \<and> hi = hi'"
proof -
  have "\<not> lo < lo'" using spec_slot_row_less[of lo lo' hi sz hi'] assms by auto
  moreover have "\<not> lo' < lo" using spec_slot_row_less[of lo' lo hi' sz hi] assms by auto
  ultimately have "lo = lo'" by simp
  moreover from this assms(5) have "hi = hi'" by (simp add: spec_slot_def)
  ultimately show ?thesis by simp
qed

lemma spec_slot_bounds:
  assumes "0 \<le> lo" "lo < hi" "hi < sz"
  shows "0 \<le> spec_slot sz lo hi" and "spec_slot sz lo hi < sz * (sz - 1) div 2"
proof -
  have "0 * (2 * sz - 1 - 0) \<le> lo * (2 * sz - 1 - lo)"
    using assms by (intro row_start_mono) auto
  also have "\<dots> \<le> 2 * spec_slot sz lo hi" using assms by (simp add: spec_slot_lower)
  finally show "0 \<le> spec_slot sz lo hi" by simp
  have "2 * spec_slot sz lo hi + 2 \<le> (lo + 1) * (2 * sz - 1 - (lo + 1))"
    by (rule spec_slot_upper[OF assms(3)])
  also have "\<dots> \<le> (sz - 1) * (2 * sz - 1 - (sz - 1))"
    using assms by (intro row_start_mono) auto
  also have "\<dots> = sz * (sz - 1)" by (simp add: algebra_simps)
  finally have "2 * spec_slot sz lo hi < sz * (sz - 1)" by simp
  moreover have "2 * (sz * (sz - 1) div 2) = sz * (sz - 1)" by simp
  ultimately show "spec_slot sz lo hi < sz * (sz - 1) div 2" by linarith
qed

text \<open>The successor of a slot: the next column of the row, or the first slot of the next row.\<close>

lemma spec_slot_next_in_row: "spec_slot sz lo (hi + 1) = spec_slot sz lo hi + 1"
  by (simp add: spec_slot_def)

lemma spec_slot_next_row: "spec_slot sz (lo + 1) (lo + 2) = spec_slot sz lo (sz - 1) + 1"
proof -
  have "2 * spec_slot sz (lo + 1) (lo + 2) = 2 * (spec_slot sz lo (sz - 1) + 1)"
    unfolding distrib_left spec_slot_double by (simp add: algebra_simps)
  then show ?thesis by simp
qed

lemma spec_slot_last: "2 * (spec_slot sz (sz - 2) (sz - 1) + 1) = sz * (sz - 1)"
  unfolding distrib_left spec_slot_double by (simp add: algebra_simps)

lemma spec_slot_surj_nat:
  assumes "int n < sz * (sz - 1) div 2" and "0 < sz"
  shows "\<exists>lo hi. 0 \<le> lo \<and> lo < hi \<and> hi < sz \<and> spec_slot sz lo hi = int n"
  using assms
proof (induction n)
  case 0
  have "2 \<le> sz"
  proof (rule ccontr)
    assume "\<not> 2 \<le> sz"
    with \<open>0 < sz\<close> have "sz = 1" by simp
    with "0.prems"(1) show False by simp
  qed
  then have "0 \<le> (0::int) \<and> (0::int) < 1 \<and> 1 < sz \<and> spec_slot sz 0 1 = int 0"
    by (simp add: spec_slot_def)
  then show ?case by blast
next
  case (Suc n)
  then obtain lo hi where v: "0 \<le> lo" "lo < hi" "hi < sz" "spec_slot sz lo hi = int n"
    by auto
  show ?case
  proof (cases "hi + 1 < sz")
    case True
    with v have "0 \<le> lo \<and> lo < hi + 1 \<and> hi + 1 < sz \<and> spec_slot sz lo (hi + 1) = int (Suc n)"
      by (simp add: spec_slot_next_in_row)
    then show ?thesis by blast
  next
    case False
    with v have hi: "hi = sz - 1" by simp
    have "lo \<noteq> sz - 2"
    proof
      assume "lo = sz - 2"
      with v hi have "2 * (int n + 1) = sz * (sz - 1)" using spec_slot_last[of sz] by simp
      moreover have "2 * (sz * (sz - 1) div 2) = sz * (sz - 1)" by simp
      ultimately show False using Suc.prems by simp
    qed
    with v hi have "0 \<le> lo + 1 \<and> lo + 1 < lo + 2 \<and> lo + 2 < sz \<and>
        spec_slot sz (lo + 1) (lo + 2) = int (Suc n)"
      by (simp add: spec_slot_next_row)
    then show ?thesis by blast
  qed
qed

subsection \<open>The formula in 64 bits\<close>

lemma wrap64_id: "- (2 ^ 63) \<le> x \<Longrightarrow> x < 2 ^ 63 \<Longrightarrow> wrap64 x = x"
proof -
  assume "- (2 ^ 63) \<le> x" and "x < 2 ^ 63"
  then have "0 \<le> x + 2 ^ 63" and "x + 2 ^ 63 < 2 ^ 64" by simp_all
  then have "(x + 2 ^ 63) mod 2 ^ 64 = x + 2 ^ 63" by (rule mod_pos_pos_trivial)
  then show ?thesis by (simp add: wrap64_def)
qed

lemma div64_2_nonneg:
  assumes "0 \<le> x" "x < 2 ^ 63"
  shows "div64 x 2 = x div 2"
proof -
  have h: "sgn x * sgn (2::int) * (abs x div abs 2) = x div 2"
    using assms(1) by (cases "x = 0") (simp_all add: sgn_if)
  have "- (2 ^ 63) \<le> x div 2" and "x div 2 < 2 ^ 63" using assms by simp_all
  then have "wrap64 (x div 2) = x div 2" by (rule wrap64_id)
  then show ?thesis unfolding div64_def h .
qed

text \<open>A capacity whose product \<open>sz * (sz - 1)\<close> fits 64 bits fits them itself.\<close>

lemma capacity_small:
  fixes sz :: int
  assumes "0 < sz" "sz * (sz - 1) < 2 ^ 63"
  shows "sz < 2 ^ 63"
proof (cases "sz = 1")
  case True
  then show ?thesis by simp
next
  case False
  with assms(1) have "0 \<le> sz * (sz - 2)" by (intro mult_nonneg_nonneg) auto
  then have "sz \<le> sz * (sz - 1)" by (simp add: algebra_simps)
  with assms(2) show ?thesis by simp
qed

lemma array_length_exact:
  assumes "0 < sz" "sz * (sz - 1) < 2 ^ 63"
  shows "div64 (mul64 sz (sub64 sz 1)) 2 = sz * (sz - 1) div 2"
proof -
  have b: "sz < 2 ^ 63" by (rule capacity_small[OF assms])
  have 1: "sub64 sz 1 = sz - 1" using assms(1) b by (simp add: sub64_def wrap64_id)
  have nn: "0 \<le> sz * (sz - 1)" using assms(1) by (intro mult_nonneg_nonneg) auto
  have 2: "mul64 sz (sz - 1) = sz * (sz - 1)"
    using nn assms(2) by (simp add: mul64_def wrap64_id)
  show ?thesis using nn assms(2) by (simp add: 1 2 div64_2_nonneg)
qed

text \<open>
  For two internal indices \<open>0 \<le> lo < hi < sz\<close> of a capacity whose product \<open>sz * (sz - 1)\<close>
  fits 64 bits, no operation of line 448 wraps: \<open>connId\<close> is the formula of the spec.
\<close>

lemma connId_exact:
  assumes "0 \<le> lo" "lo < hi" "hi < sz" "sz * (sz - 1) < 2 ^ 63"
  shows "connId sz lo hi = spec_slot sz lo hi"
proof -
  define a where "a = lo * (sz - 1)"
  define q where "q = lo * (lo + 1)"
  define P where "P = (sz - 2) * (sz - 1)"
  have pos: "0 < sz" using assms by simp
  have b: "sz < 2 ^ 63" by (rule capacity_small[OF pos assms(4)])
  have top: "P + (sz - 1) < 2 ^ 63"
    unfolding P_def using assms(4) pos by (simp add: algebra_simps)
  have p0: "0 \<le> a" unfolding a_def using assms by (intro mult_nonneg_nonneg) auto
  have p1: "a \<le> P" unfolding a_def P_def using assms by (intro mult_right_mono) auto
  have q0: "0 \<le> q" unfolding q_def using assms by (intro mult_nonneg_nonneg) auto
  have q1: "q \<le> P" unfolding q_def P_def using assms by (intro mult_mono) auto
  have 1: "sub64 sz 1 = sz - 1"
    unfolding sub64_def by (rule wrap64_id) (use pos b in simp_all)
  have 2: "mul64 lo (sz - 1) = a"
    unfolding mul64_def a_def[symmetric] by (rule wrap64_id) (use p0 p1 top pos in simp_all)
  have 3: "add64 a hi = a + hi"
    unfolding add64_def by (rule wrap64_id) (use p0 p1 top assms in simp_all)
  have 4: "sub64 (a + hi) 1 = a + hi - 1"
    unfolding sub64_def by (rule wrap64_id) (use p0 p1 top assms in simp_all)
  have 5: "add64 lo 1 = lo + 1"
    unfolding add64_def by (rule wrap64_id) (use assms b in simp_all)
  have 6: "mul64 lo (lo + 1) = q"
    unfolding mul64_def q_def[symmetric] by (rule wrap64_id) (use q0 q1 top pos in simp_all)
  have 7: "div64 q 2 = q div 2"
    by (rule div64_2_nonneg) (use q0 q1 top pos in simp_all)
  have d0: "0 \<le> q div 2" using q0 by simp
  have eq: "a + hi - 1 - q div 2 = spec_slot sz lo hi"
    by (simp add: spec_slot_def a_def q_def)
  have s0: "0 \<le> spec_slot sz lo hi" by (rule spec_slot_bounds(1)[OF assms(1-3)])
  have 8: "sub64 (a + hi - 1) (q div 2) = a + hi - 1 - q div 2"
    unfolding sub64_def by (rule wrap64_id) (use s0 eq d0 p0 p1 top assms in simp_all)
  show ?thesis unfolding connId_def 1 2 3 4 5 6 7 8 by (rule eq)
qed

text \<open>
  Claim C1, as stated, fails. At the capacity \<open>2^32 + 1\<close> the product \<open>size*(size-1)\<close> of line
  25 wraps, \<open>NewMixedMatrix\<close> returns a store whose array has \<open>2^31\<close> slots and not
  \<open>size*(size-1)/2\<close>, and the valid pair \<open>lo = 1\<close>, \<open>hi = 2\<close> has the packed index \<open>2^32\<close>,
  outside the array: the packed index is no bijection between the valid pairs and the array.
\<close>

theorem connId_wrapped_counterexample:
  "NewMixedMatrix 4294967297 = Inr store_wrapped \<and>
   length (nodes store_wrapped) = 2147483648 \<and>
   int (length (nodes store_wrapped)) \<noteq> 4294967297 * (4294967297 - 1) div 2 \<and>
   connId (size_m store_wrapped) 1 2 = 4294967296 \<and>
   \<not> in_range store_wrapped (connId (size_m store_wrapped) 1 2) \<and>
   \<not> bij_betw (\<lambda>(lo, hi). connId (size_m store_wrapped) lo hi)
        {(lo, hi). 0 \<le> lo \<and> lo < hi \<and> hi < size_m store_wrapped}
        {conn. in_range store_wrapped conn}"
proof -
  have len: "length (nodes store_wrapped) = 2147483648" by (simp add: store_wrapped_def)
  have sz: "size_m store_wrapped = 4294967297" by (simp add: store_wrapped_def)
  have c: "connId (size_m store_wrapped) 1 2 = 4294967296"
    by (simp add: sz connId_def wrap64_def add64_def sub64_def mul64_def div64_def)
  have out: "\<not> in_range store_wrapped (connId (size_m store_wrapped) 1 2)"
    by (simp add: c in_range_def len)
  have "\<not> bij_betw (\<lambda>(lo, hi). connId (size_m store_wrapped) lo hi)
        {(lo, hi). 0 \<le> lo \<and> lo < hi \<and> hi < size_m store_wrapped}
        {conn. in_range store_wrapped conn}"
  proof
    assume "bij_betw (\<lambda>(lo, hi). connId (size_m store_wrapped) lo hi)
        {(lo, hi). 0 \<le> lo \<and> lo < hi \<and> hi < size_m store_wrapped}
        {conn. in_range store_wrapped conn}"
    then have "(\<lambda>(lo, hi). connId (size_m store_wrapped) lo hi) `
        {(lo, hi). 0 \<le> lo \<and> lo < hi \<and> hi < size_m store_wrapped}
        = {conn. in_range store_wrapped conn}"
      by (rule bij_betw_imp_surj_on)
    moreover have "(1, 2) \<in> {(lo, hi). 0 \<le> lo \<and> lo < hi \<and> hi < size_m store_wrapped}"
      by (simp add: sz)
    ultimately have "(\<lambda>(lo, hi). connId (size_m store_wrapped) lo hi) (1, 2)
        \<in> {conn. in_range store_wrapped conn}"
      by blast
    with out show False by simp
  qed
  with store_wrapped_built len c out show ?thesis by simp
qed

text \<open>
  Claim C1, amended. For every capacity \<open>sz > 0\<close> whose product \<open>sz * (sz - 1)\<close> fits a 64-bit
  \<open>int\<close> (that is, \<open>sz \<le> 3037000500\<close>) and for which \<open>NewMixedMatrix\<close> returns a store \<open>g\<close>,
  the packed index of line 448, computed in 64 bits, is a bijection between the pairs of
  internal indices with \<open>0 \<le> lo < hi < sz\<close> and the valid positions of the array \<open>nodes\<close> that
  the constructor allocates, whose length is \<open>sz*(sz-1)/2\<close>: it is injective on these pairs,
  and its range is the whole array, with no gap and no overlap.
\<close>

theorem connId_bijection:
  assumes "NewMixedMatrix sz = Inr g" and "sz * (sz - 1) < 2 ^ 63"
  shows "bij_betw (\<lambda>(lo, hi). connId (size_m g) lo hi)
           {(lo, hi). 0 \<le> lo \<and> lo < hi \<and> hi < size_m g} {conn. in_range g conn} \<and>
         {conn. in_range g conn} = {0 ..< sz * (sz - 1) div 2} \<and>
         int (length (nodes g)) = sz * (sz - 1) div 2 \<and> size_m g = sz \<and> 0 < sz"
proof -
  note c = NewMixedMatrix_Inr[OF assms(1)]
  have pos: "0 < sz" and sz: "size_m g = sz" by (rule c(1), rule c(2))
  have n: "div64 (mul64 sz (sub64 sz 1)) 2 = sz * (sz - 1) div 2"
    by (rule array_length_exact[OF pos assms(2)])
  have nonneg: "0 \<le> sz * (sz - 1) div 2" using pos by simp
  have len': "int (length (nodes g)) = sz * (sz - 1) div 2" using c(8) n nonneg by simp
  let ?f = "\<lambda>(lo, hi). spec_slot sz lo hi"
  let ?A = "{(lo, hi). 0 \<le> lo \<and> lo < hi \<and> hi < sz}"
  let ?B = "{conn. in_range g conn}"
  have inj: "inj_on ?f ?A"
    by (rule inj_onI) (auto dest: spec_slot_inj)
  have img: "?f ` ?A = ?B"
  proof (rule set_eqI, rule iffI)
    fix c assume "c \<in> ?f ` ?A"
    then show "c \<in> ?B"
      using spec_slot_bounds[of _ _ sz] by (auto simp add: in_range_def len')
  next
    fix c assume "c \<in> ?B"
    then have c: "0 \<le> c" "c < sz * (sz - 1) div 2" by (simp_all add: in_range_def len')
    then have "int (nat c) < sz * (sz - 1) div 2" by simp
    from spec_slot_surj_nat[OF this pos] c(1)
    obtain lo hi where "0 \<le> lo" "lo < hi" "hi < sz" "spec_slot sz lo hi = c" by auto
    then have "(lo, hi) \<in> ?A" and "?f (lo, hi) = c" by simp_all
    then show "c \<in> ?f ` ?A" by (metis (no_types, lifting) imageI)
  qed
  from inj img have "bij_betw ?f ?A ?B" by (simp add: bij_betw_def)
  moreover have "\<And>a. a \<in> ?A \<Longrightarrow> (\<lambda>(lo, hi). connId sz lo hi) a = ?f a"
    using assms(2) by (auto simp add: connId_exact)
  then have "bij_betw (\<lambda>(lo, hi). connId sz lo hi) ?A ?B = bij_betw ?f ?A ?B"
    by (rule bij_betw_cong)
  ultimately have "bij_betw (\<lambda>(lo, hi). connId sz lo hi) ?A ?B" by simp
  moreover have "?B = {0 ..< sz * (sz - 1) div 2}" by (auto simp add: in_range_def len')
  ultimately show ?thesis using len' sz pos by simp
qed

theorem connId_bijection_witness:
  "NewMixedMatrix 4 = Inr store_new4 \<and> (4::int) * (4 - 1) < 2 ^ 63 \<and>
   bij_betw (\<lambda>(lo, hi). connId 4 lo hi)
     {(lo, hi). 0 \<le> lo \<and> lo < hi \<and> hi < 4} {conn. in_range store_new4 conn} \<and>
   {conn. in_range store_new4 conn} = {0 ..< 6} \<and>
   length (nodes store_new4) = 6"
proof -
  have s: "size_m store_new4 = 4" by (simp add: store_new4_def)
  have small: "(4::int) * (4 - 1) < 2 ^ 63" by simp
  note b = connId_bijection[OF store_new4_built small, unfolded s]
  from b have "bij_betw (\<lambda>(lo, hi). connId 4 lo hi)
     {(lo, hi). 0 \<le> lo \<and> lo < hi \<and> hi < 4} {conn. in_range store_new4 conn}"
    by (rule conjunct1)
  moreover from b have "{conn. in_range store_new4 conn} = {0 ..< 6}" by simp
  moreover have "length (nodes store_new4) = 6" by (simp add: store_new4_def)
  ultimately show ?thesis using store_new4_built small by blast
qed

section \<open>Arcs: how the direction is stored and read\<close>

text \<open>
  Claim C2, as stated, fails. In \<open>store_53\<close> the vertex 5 has internal index 0 and the vertex 3
  has internal index 1. \<open>AddArc(5, 3)\<close> succeeds; the internal index of the tail is smaller
  than the one of the head, and the slot of the pair (slot 0) holds \<open>CT_DIRECTED_REVERSED\<close>,
  not \<open>CT_DIRECTED\<close>: line 216 compares the ids, \<open>5 < 3\<close>.
\<close>

theorem addArc_index_order_counterexample:
  "AddArc 5 3 store_53 = (store_53_arc, Inr ()) \<and>
   map_of (VertexIds store_53_arc) 5 = Some 0 \<and>
   map_of (VertexIds store_53_arc) 3 = Some 1 \<and>
   getConnectionId 5 3 False store_53_arc = (store_53_arc, Inr 0) \<and>
   nodes store_53_arc ! nat 0 = CT_DIRECTED_REVERSED \<and>
   nodes store_53_arc ! nat 0 \<noteq> CT_DIRECTED"
  by (simp add: eval_defs store_53_def store_53_arc_def)

text \<open>
  Claim C2, amended. After every successful \<open>AddArc(tail, head)\<close>, on every store, the slot of
  the pair holds \<open>CT_DIRECTED\<close> if the id \<open>tail\<close> is smaller than the id \<open>head\<close>, and
  \<open>CT_DIRECTED_REVERSED\<close> otherwise: the encoding is relative to the order of the vertex ids,
  whatever the internal indices of the two vertices are.
\<close>

theorem addArc_slot_by_vertex_id:
  assumes "AddArc tail head gr = (gr', Inr ())"
  shows "\<exists>conn. getConnectionId tail head False gr' = (gr', Inr conn) \<and> in_range gr' conn \<and>
           nodes gr' ! nat conn = (if tail < head then CT_DIRECTED else CT_DIRECTED_REVERSED)"
proof -
  from assms obtain gr1 conn where g: "getConnectionId tail head True gr = (gr1, Inr conn)"
    and r: "in_range gr1 conn"
    and eq: "gr' = gr1\<lparr>nodes := (nodes gr1)[nat conn :=
                      (if tail < head then CT_DIRECTED else CT_DIRECTED_REVERSED)],
                    arcsCnt := add64 (arcsCnt gr1) 1\<rparr>"
    by (rule AddArc_success)
  have "getConnectionId tail head False gr' = (gr', Inr conn)"
    by (rule getConnectionId_again(1)[OF g]) (simp_all add: eq)
  moreover have "in_range gr' conn" using r by (simp add: eq in_range_def)
  moreover have "nodes gr' ! nat conn = (if tail < head then CT_DIRECTED else CT_DIRECTED_REVERSED)"
    using in_range_nat[OF r] by (simp add: eq)
  ultimately show ?thesis by blast
qed

theorem addArc_slot_by_vertex_id_witness:
  "AddArc 1 3 store_ABCD = (fst (AddArc 1 3 store_ABCD), Inr ()) \<and>
   (\<exists>conn. getConnectionId 1 3 False (fst (AddArc 1 3 store_ABCD))
              = (fst (AddArc 1 3 store_ABCD), Inr conn) \<and>
            in_range (fst (AddArc 1 3 store_ABCD)) conn \<and>
            nodes (fst (AddArc 1 3 store_ABCD)) ! nat conn = CT_DIRECTED)"
proof -
  have ok: "AddArc 1 3 store_ABCD = (fst (AddArc 1 3 store_ABCD), Inr ())"
    by (simp add: eval_defs store_ABCD_def)
  from addArc_slot_by_vertex_id[OF ok] ok show ?thesis by simp
qed

text \<open>
  Claim C3: the code at the scenario of the claim. Capacity 4, vertices A = 1, B = 2, C = 3,
  D = 4 added in this order, then \<open>AddArc(C, A)\<close>. The arc runs from C to A and
  \<open>CheckArc(C, A)\<close> says so, but \<open>CheckEdgeType(C, A)\<close> returns \<open>CT_DIRECTED_REVERSED\<close>, the
  state of the slot, and not \<open>CT_DIRECTED\<close>; \<open>CheckEdgeType(A, C)\<close> returns
  \<open>CT_DIRECTED_REVERSED\<close> as well. Line 348 translates a slot holding \<open>CT_DIRECTED\<close> for
  \<open>tail > head\<close> and has no case for a slot holding \<open>CT_DIRECTED_REVERSED\<close>.
\<close>

theorem checkEdgeType_reversed_slot:
  "AddArc 3 1 store_ABCD = (store_ABCD_arc_CA, Inr ()) \<and>
   CheckArc 3 1 store_ABCD_arc_CA = (store_ABCD_arc_CA, Inr True) \<and>
   CheckArc 1 3 store_ABCD_arc_CA = (store_ABCD_arc_CA, Inr False) \<and>
   CheckEdgeType 3 1 store_ABCD_arc_CA = (store_ABCD_arc_CA, Inr CT_DIRECTED_REVERSED) \<and>
   CheckEdgeType 1 3 store_ABCD_arc_CA = (store_ABCD_arc_CA, Inr CT_DIRECTED_REVERSED)"
  by (simp add: eval_defs store_ABCD_def store_ABCD_arc_CA_def)

text \<open>
  What \<open>CheckEdgeType\<close> returns after a successful \<open>AddArc(tail, head)\<close>, on every store: asked
  for \<open>(head, tail)\<close> it returns \<open>CT_DIRECTED_REVERSED\<close>; asked for \<open>(tail, head)\<close> it
  returns \<open>CT_DIRECTED\<close> exactly if the id \<open>tail\<close> is the smaller one.
\<close>

lemma addArc_then_checkEdgeType:
  assumes "AddArc tail head gr = (gr', Inr ())"
  shows "CheckEdgeType tail head gr' =
           (gr', Inr (if tail < head then CT_DIRECTED else CT_DIRECTED_REVERSED))"
    and "CheckEdgeType head tail gr' = (gr', Inr CT_DIRECTED_REVERSED)"
proof -
  from assms obtain gr1 conn where g: "getConnectionId tail head True gr = (gr1, Inr conn)"
    and r: "in_range gr1 conn"
    and eq: "gr' = gr1\<lparr>nodes := (nodes gr1)[nat conn :=
                      (if tail < head then CT_DIRECTED else CT_DIRECTED_REVERSED)],
                    arcsCnt := add64 (arcsCnt gr1) 1\<rparr>"
    by (rule AddArc_success)
  have ne: "tail \<noteq> head" by (rule getConnectionId_create_Inr(4)[OF g])
  have fw: "getConnectionId tail head False gr' = (gr', Inr conn)"
    by (rule getConnectionId_again(1)[OF g]) (simp_all add: eq)
  have bw: "getConnectionId head tail False gr' = (gr', Inr conn)"
    by (rule getConnectionId_again(2)[OF g]) (simp_all add: eq)
  have rng: "in_range gr' conn" using r by (simp add: eq in_range_def)
  have slot: "nodes gr' ! nat conn = (if tail < head then CT_DIRECTED else CT_DIRECTED_REVERSED)"
    using in_range_nat[OF r] by (simp add: eq)
  show "CheckEdgeType tail head gr' =
           (gr', Inr (if tail < head then CT_DIRECTED else CT_DIRECTED_REVERSED))"
    by (auto simp add: CheckEdgeType_def fw rng slot)
  show "CheckEdgeType head tail gr' = (gr', Inr CT_DIRECTED_REVERSED)"
    using ne by (auto simp add: CheckEdgeType_def bw rng slot)
qed

text \<open>
  Claim C7. On every store, after a successful \<open>AddArc(tail, head)\<close> (so the two ids are
  distinct and their slot was free), \<open>CheckArc(tail, head)\<close> returns true and
  \<open>CheckArc(head, tail)\<close> returns false, whatever the order of the two ids and of their
  internal indices; neither query changes the store.
\<close>

theorem addArc_then_checkArc:
  assumes "AddArc tail head gr = (gr', Inr ())"
  shows "CheckArc tail head gr' = (gr', Inr True) \<and> CheckArc head tail gr' = (gr', Inr False)"
proof -
  from assms obtain gr1 conn where g: "getConnectionId tail head True gr = (gr1, Inr conn)"
    and r: "in_range gr1 conn"
    and eq: "gr' = gr1\<lparr>nodes := (nodes gr1)[nat conn :=
                      (if tail < head then CT_DIRECTED else CT_DIRECTED_REVERSED)],
                    arcsCnt := add64 (arcsCnt gr1) 1\<rparr>"
    by (rule AddArc_success)
  have ne: "tail \<noteq> head" by (rule getConnectionId_create_Inr(4)[OF g])
  have fw: "getConnectionId tail head False gr' = (gr', Inr conn)"
    by (rule getConnectionId_again(1)[OF g]) (simp_all add: eq)
  have bw: "getConnectionId head tail False gr' = (gr', Inr conn)"
    by (rule getConnectionId_again(2)[OF g]) (simp_all add: eq)
  have rng: "in_range gr' conn" using r by (simp add: eq in_range_def)
  have slot: "nodes gr' ! nat conn = (if tail < head then CT_DIRECTED else CT_DIRECTED_REVERSED)"
    using in_range_nat[OF r] by (simp add: eq)
  have "CheckArc tail head gr' = (gr', Inr True)"
    by (simp add: CheckArc_def fw rng slot)
  moreover have "CheckArc head tail gr' = (gr', Inr False)"
    using ne by (auto simp add: CheckArc_def bw rng slot)
  ultimately show ?thesis by simp
qed

theorem addArc_then_checkArc_witness:
  "AddArc 5 3 store_53 = (fst (AddArc 5 3 store_53), Inr ()) \<and>
   CheckArc 5 3 (fst (AddArc 5 3 store_53)) = (fst (AddArc 5 3 store_53), Inr True) \<and>
   CheckArc 3 5 (fst (AddArc 5 3 store_53)) = (fst (AddArc 5 3 store_53), Inr False)"
proof -
  have ok: "AddArc 5 3 store_53 = (fst (AddArc 5 3 store_53), Inr ())"
    by (simp add: eval_defs store_53_def)
  from addArc_then_checkArc[OF ok] ok show ?thesis by simp
qed

section \<open>Queries on unmapped ids\<close>

text \<open>
  Claim C10. For every store and distinct ids \<open>u\<close>, \<open>v\<close> of which at least one is not a key of
  the vertex map, \<open>CheckEdge(u, v)\<close>, \<open>CheckArc(u, v)\<close> and \<open>CheckEdgeType(u, v)\<close> panic (lines
  413 to 418, "node doesn't exist in graph") instead of returning false or \<open>CT_NONE\<close>, and
  leave the store as it was: no query creates a vertex.
\<close>

theorem queries_fail_on_unmapped:
  assumes "u \<noteq> v"
    and "map_of (VertexIds gr) u = None \<or> map_of (VertexIds gr) v = None"
  shows "CheckEdge u v gr = (gr, Inl NotFound) \<and>
         CheckArc u v gr = (gr, Inl NotFound) \<and>
         CheckEdgeType u v gr = (gr, Inl NotFound)"
  using assms
  by (simp add: CheckEdge_def CheckArc_def CheckEdgeType_def getConnectionId_unmapped)

theorem queries_fail_on_unmapped_witness:
  "(1::nat) \<noteq> 9 \<and>
   (map_of (VertexIds store_ABCD) 1 = None \<or> map_of (VertexIds store_ABCD) 9 = None) \<and>
   CheckEdge 1 9 store_ABCD = (store_ABCD, Inl NotFound) \<and>
   CheckArc 1 9 store_ABCD = (store_ABCD, Inl NotFound) \<and>
   CheckEdgeType 1 9 store_ABCD = (store_ABCD, Inl NotFound)"
proof -
  have ne: "(1::nat) \<noteq> 9" by simp
  have un: "map_of (VertexIds store_ABCD) 1 = None \<or> map_of (VertexIds store_ABCD) 9 = None"
    by (simp add: store_ABCD_def)
  from queries_fail_on_unmapped[OF ne un] ne un show ?thesis by blast
qed

section \<open>Creation of vertices by the indexing routine\<close>

text \<open>With one id mapped and the other one missing, a full store is left as it was.\<close>

lemma getConnectionId_one_missing_full:
  assumes "node1 \<noteq> node2"
    and "map_of (VertexIds gr) node1 = None \<or> map_of (VertexIds gr) node2 = None"
    and "sub64 (size_m gr) (len_ids gr) < 1"
  shows "getConnectionId node1 node2 True gr = (gr, Inl CapacityExceeded)"
  using assms by (auto simp add: getConnectionId_def Let_def)

text \<open>
  With both ids missing and one free index, the routine passes its capacity check, gives the
  two ids the indices 1 and 2 and returns slot 1 of an array of length 1.
\<close>

lemma getConnectionId_two_missing_one_free:
  "getConnectionId 7 8 True store_5 = (store_5\<lparr>VertexIds := [(5, 0), (7, 1), (8, 2)]\<rparr>, Inr 1)"
  by (simp add: eval_defs store_5_def)

text \<open>
  Claim C4: the code at a store of capacity 2 that holds the single vertex 5, so that one index
  is left, and the two unmapped ids 7 and 8. The claim asks for \<open>CapacityExceeded\<close> and an
  unchanged store. Line 420 tests \<open>node1Exist && node2Exist\<close> inside the branch
  \<open>!node1Exist || !node2Exist\<close>, where it is false, so the test against 2 of line 421 is never
  reached and one free index passes the check of line 425. \<open>AddEdge(7, 8)\<close> and
  \<open>AddArc(7, 8)\<close> store both ids in the vertex map, with the indices 1 and 2, and then panic at
  \<open>gr.nodes[conn]\<close> with \<open>conn = 1\<close>, the length of the array: the map has three vertices in a
  store of capacity 2.
\<close>

theorem addEdge_two_missing_one_free:
  "size_m store_5 - len_ids store_5 = 1 \<and>
   map_of (VertexIds store_5) 7 = None \<and> map_of (VertexIds store_5) 8 = None \<and>
   AddEdge 7 8 store_5 = (store_5\<lparr>VertexIds := [(5, 0), (7, 1), (8, 2)]\<rparr>, Inl IndexOutOfRange) \<and>
   AddArc 7 8 store_5 = (store_5\<lparr>VertexIds := [(5, 0), (7, 1), (8, 2)]\<rparr>, Inl IndexOutOfRange) \<and>
   Order (fst (AddEdge 7 8 store_5)) = 3"
  by (simp add: eval_defs store_5_def)

text \<open>
  When both ids are mapped, a remove that fails leaves the store as it was: the routine has
  nothing to create.
\<close>

lemma remove_mapped_failure_unchanged:
  assumes "map_of (VertexIds gr) u = Some i" "map_of (VertexIds gr) v = Some j" "u \<noteq> v"
  shows "RemoveEdge u v gr = (gr', Inl e) \<Longrightarrow> gr' = gr"
    and "RemoveArc u v gr = (gr', Inl e) \<Longrightarrow> gr' = gr"
  using getConnectionId_mapped[OF assms, of True]
  by (auto simp add: RemoveEdge_def RemoveArc_def Let_def split: if_splits)

text \<open>
  Claim C5: the code at the fresh store of capacity 3 and the unmapped ids 1 and 2.
  \<open>RemoveEdge\<close> (line 154) and \<open>RemoveArc\<close> (line 239) call the indexing routine with
  \<open>create = true\<close>. Both calls fail with "doesn't exists", and both leave the ids 1 and 2 in
  the vertex map: \<open>Order()\<close> is 0 before the failed call and 2 after it.
\<close>

theorem remove_creates_vertices:
  "Order store_new3 = 0 \<and>
   RemoveEdge 1 2 store_new3 = (store_new3\<lparr>VertexIds := [(1, 0), (2, 1)]\<rparr>, Inl NotFound) \<and>
   RemoveArc 1 2 store_new3 = (store_new3\<lparr>VertexIds := [(1, 0), (2, 1)]\<rparr>, Inl NotFound) \<and>
   Order (fst (RemoveEdge 1 2 store_new3)) = 2 \<and>
   Order (fst (RemoveArc 1 2 store_new3)) = 2"
  by (simp add: eval_defs store_new3_def)

section \<open>The counters\<close>

lemma filter_length_update_nat:
  "i < length xs \<Longrightarrow>
     length (filter P (xs[i := b])) + (if P (xs ! i) then 1 else 0) =
       length (filter P xs) + (if P b then 1 else 0)"
proof (induction xs arbitrary: i)
  case Nil
  then show ?case by simp
next
  case (Cons x xs)
  show ?case
  proof (cases i)
    case 0
    then show ?thesis by simp
  next
    case (Suc j)
    with Cons.prems have "j < length xs" by simp
    from Cons.IH[OF this] Suc show ?thesis by simp
  qed
qed

lemma filter_length_update:
  assumes "i < length xs"
  shows "int (length (filter P (xs[i := b]))) =
       int (length (filter P xs)) + (if P b then 1 else 0) - (if P (xs ! i) then 1 else 0)"
  using filter_length_update_nat[OF assms, of P b] by (simp split: if_splits)

lemma slot_counts_split:
  "length (filter (\<lambda>t. t \<noteq> CT_NONE) xs) =
     length (filter (\<lambda>t. t = CT_UNDIRECTED) xs) +
     length (filter (\<lambda>t. t = CT_DIRECTED \<or> t = CT_DIRECTED_REVERSED) xs)"
proof (induction xs)
  case Nil
  then show ?case by simp
next
  case (Cons x xs)
  then show ?case by (cases x) simp_all
qed

lemma occupied_split: "occupied gr = undirected_slots gr + directed_slots gr"
  by (simp add: occupied_def undirected_slots_def directed_slots_def slot_counts_split)

lemma slots_bounds:
  "0 \<le> undirected_slots gr" "undirected_slots gr \<le> int (length (nodes gr))"
  "0 \<le> directed_slots gr" "directed_slots gr \<le> int (length (nodes gr))"
  "undirected_slots gr + directed_slots gr \<le> int (length (nodes gr))"
proof -
  show "0 \<le> undirected_slots gr" "undirected_slots gr \<le> int (length (nodes gr))"
    "0 \<le> directed_slots gr" "directed_slots gr \<le> int (length (nodes gr))"
    by (simp_all add: undirected_slots_def directed_slots_def)
  have "occupied gr \<le> int (length (nodes gr))" by (simp add: occupied_def)
  then show "undirected_slots gr + directed_slots gr \<le> int (length (nodes gr))"
    by (simp add: occupied_split)
qed

text \<open>The two numbers after the assignment \<open>gr.nodes[conn] = t\<close>.\<close>

lemma slot_write:
  assumes "in_range gr conn" and "nodes gr' = (nodes gr)[nat conn := t]"
  shows "undirected_slots gr' =
           undirected_slots gr + (if t = CT_UNDIRECTED then 1 else 0)
             - (if nodes gr ! nat conn = CT_UNDIRECTED then 1 else 0)"
    and "directed_slots gr' =
           directed_slots gr + (if t = CT_DIRECTED \<or> t = CT_DIRECTED_REVERSED then 1 else 0)
             - (if nodes gr ! nat conn = CT_DIRECTED \<or> nodes gr ! nat conn = CT_DIRECTED_REVERSED
                then 1 else 0)"
    and "length (nodes gr') = length (nodes gr)"
  using filter_length_update[OF in_range_nat[OF assms(1)], of "\<lambda>t. t = CT_UNDIRECTED" t]
    filter_length_update[OF in_range_nat[OF assms(1)],
      of "\<lambda>t. t = CT_DIRECTED \<or> t = CT_DIRECTED_REVERSED" t] assms(2)
  by (simp_all add: undirected_slots_def directed_slots_def)

text \<open>A counter that counts slots of the array does not wrap when it is stepped.\<close>

lemma counter_step:
  assumes "0 \<le> x" "x < 2 ^ 62"
  shows "add64 x 1 = x + 1" and "sub64 x 1 = x - 1"
proof -
  show "add64 x 1 = x + 1"
    unfolding add64_def by (rule wrap64_id) (use assms in simp_all)
  show "sub64 x 1 = x - 1"
    unfolding sub64_def by (rule wrap64_id) (use assms in simp_all)
qed

lemma counters_exact_steps:
  assumes "counters_exact gr"
  shows "add64 (edgesCnt gr) 1 = edgesCnt gr + 1" and "sub64 (edgesCnt gr) 1 = edgesCnt gr - 1"
    and "add64 (arcsCnt gr) 1 = arcsCnt gr + 1" and "sub64 (arcsCnt gr) 1 = arcsCnt gr - 1"
proof -
  from assms have e: "0 \<le> edgesCnt gr" "edgesCnt gr < 2 ^ 62"
    and a: "0 \<le> arcsCnt gr" "arcsCnt gr < 2 ^ 62"
    using slots_bounds(1-4)[of gr] by (simp_all add: counters_exact_def)
  show "add64 (edgesCnt gr) 1 = edgesCnt gr + 1" "sub64 (edgesCnt gr) 1 = edgesCnt gr - 1"
    by (rule counter_step[OF e])+
  show "add64 (arcsCnt gr) 1 = arcsCnt gr + 1" "sub64 (arcsCnt gr) 1 = arcsCnt gr - 1"
    by (rule counter_step[OF a])+
qed

lemma counters_exact_frame:
  assumes "counters_exact gr" "nodes gr' = nodes gr" "edgesCnt gr' = edgesCnt gr"
    "arcsCnt gr' = arcsCnt gr"
  shows "counters_exact gr'"
  using assms by (simp add: counters_exact_def undirected_slots_def directed_slots_def)

lemma getConnectionId_counters_exact:
  assumes "counters_exact gr" "getConnectionId node1 node2 create gr = (gr1, r)"
  shows "counters_exact gr1"
  using assms(1) getConnectionId_frame(1,3,4)[OF assms(2)] by (rule counters_exact_frame)

lemma AddNode_counters_exact: "counters_exact gr \<Longrightarrow> counters_exact (fst (AddNode v gr))"
  by (simp add: AddNode_def counters_exact_def undirected_slots_def directed_slots_def)

text \<open>
  Each of the four writers changes a slot and its counter in the same call, after all its
  panics: the slot it fills held \<open>CT_NONE\<close>, the slot it clears held what it counts.
\<close>

lemma AddEdge_counters_exact:
  assumes "counters_exact gr"
  shows "counters_exact (fst (AddEdge u v gr))"
proof (cases "getConnectionId u v True gr")
  case (Pair gr1 r)
  have m: "counters_exact gr1" by (rule getConnectionId_counters_exact[OF assms Pair])
  show ?thesis
  proof (cases r)
    case (Inl e)
    with Pair m show ?thesis by (simp add: AddEdge_def)
  next
    case (Inr conn)
    show ?thesis
    proof (cases "in_range gr1 conn \<and> nodes gr1 ! nat conn = CT_NONE")
      case False
      with Pair Inr m show ?thesis by (auto simp add: AddEdge_def)
    next
      case True
      define g where "g = gr1\<lparr>nodes := (nodes gr1)[nat conn := CT_UNDIRECTED],
                                edgesCnt := add64 (edgesCnt gr1) 1\<rparr>"
      have res: "fst (AddEdge u v gr) = g" using Pair Inr True by (simp add: AddEdge_def g_def)
      have w: "nodes g = (nodes gr1)[nat conn := CT_UNDIRECTED]" by (simp add: g_def)
      have "counters_exact g"
        using m True slot_write[OF _ w] counters_exact_steps(1)[OF m]
        by (simp add: counters_exact_def g_def)
      with res show ?thesis by simp
    qed
  qed
qed

lemma RemoveEdge_counters_exact:
  assumes "counters_exact gr"
  shows "counters_exact (fst (RemoveEdge u v gr))"
proof (cases "getConnectionId u v True gr")
  case (Pair gr1 r)
  have m: "counters_exact gr1" by (rule getConnectionId_counters_exact[OF assms Pair])
  show ?thesis
  proof (cases r)
    case (Inl e)
    with Pair m show ?thesis by (simp add: RemoveEdge_def)
  next
    case (Inr conn)
    show ?thesis
    proof (cases "in_range gr1 conn \<and> nodes gr1 ! nat conn = CT_UNDIRECTED")
      case False
      with Pair Inr m show ?thesis by (auto simp add: RemoveEdge_def)
    next
      case True
      define g where "g = gr1\<lparr>nodes := (nodes gr1)[nat conn := CT_NONE],
                                edgesCnt := sub64 (edgesCnt gr1) 1\<rparr>"
      have res: "fst (RemoveEdge u v gr) = g"
        using Pair Inr True by (simp add: RemoveEdge_def g_def)
      have w: "nodes g = (nodes gr1)[nat conn := CT_NONE]" by (simp add: g_def)
      have "counters_exact g"
        using m True slot_write[OF _ w] counters_exact_steps(2)[OF m]
        by (simp add: counters_exact_def g_def)
      with res show ?thesis by simp
    qed
  qed
qed

lemma AddArc_counters_exact:
  assumes "counters_exact gr"
  shows "counters_exact (fst (AddArc u v gr))"
proof (cases "getConnectionId u v True gr")
  case (Pair gr1 r)
  have m: "counters_exact gr1" by (rule getConnectionId_counters_exact[OF assms Pair])
  show ?thesis
  proof (cases r)
    case (Inl e)
    with Pair m show ?thesis by (simp add: AddArc_def)
  next
    case (Inr conn)
    show ?thesis
    proof (cases "in_range gr1 conn \<and> nodes gr1 ! nat conn = CT_NONE")
      case False
      with Pair Inr m show ?thesis by (auto simp add: AddArc_def)
    next
      case True
      define t where "t = (if u < v then CT_DIRECTED else CT_DIRECTED_REVERSED)"
      define g where "g = gr1\<lparr>nodes := (nodes gr1)[nat conn := t],
                                arcsCnt := add64 (arcsCnt gr1) 1\<rparr>"
      have t: "t = CT_DIRECTED \<or> t = CT_DIRECTED_REVERSED" "t \<noteq> CT_UNDIRECTED"
        by (simp_all add: t_def)
      have res: "fst (AddArc u v gr) = g"
        using Pair Inr True by (simp add: AddArc_def g_def t_def)
      have w: "nodes g = (nodes gr1)[nat conn := t]" by (simp add: g_def)
      have "counters_exact g"
        using m True t slot_write[OF _ w] counters_exact_steps(3)[OF m]
        by (simp add: counters_exact_def g_def)
      with res show ?thesis by simp
    qed
  qed
qed

lemma RemoveArc_counters_exact:
  assumes "counters_exact gr"
  shows "counters_exact (fst (RemoveArc u v gr))"
proof (cases "getConnectionId u v True gr")
  case (Pair gr1 r)
  have m: "counters_exact gr1" by (rule getConnectionId_counters_exact[OF assms Pair])
  show ?thesis
  proof (cases r)
    case (Inl e)
    with Pair m show ?thesis by (simp add: RemoveArc_def)
  next
    case (Inr conn)
    define t where "t = (if u < v then CT_DIRECTED else CT_DIRECTED_REVERSED)"
    have t: "t = CT_DIRECTED \<or> t = CT_DIRECTED_REVERSED" "t \<noteq> CT_UNDIRECTED"
      by (simp_all add: t_def)
    show ?thesis
    proof (cases "in_range gr1 conn \<and> nodes gr1 ! nat conn = t")
      case False
      with Pair Inr m show ?thesis by (auto simp add: RemoveArc_def Let_def t_def)
    next
      case True
      define g where "g = gr1\<lparr>nodes := (nodes gr1)[nat conn := CT_NONE],
                                arcsCnt := sub64 (arcsCnt gr1) 1\<rparr>"
      have res: "fst (RemoveArc u v gr) = g"
        using Pair Inr True by (simp add: RemoveArc_def Let_def g_def t_def)
      have w: "nodes g = (nodes gr1)[nat conn := CT_NONE]" by (simp add: g_def)
      have "counters_exact g"
        using m True t slot_write[OF _ w] counters_exact_steps(4)[OF m]
        by (simp add: counters_exact_def g_def)
      with res show ?thesis by simp
    qed
  qed
qed

text \<open>The three queries return the store they were given, whatever they answer.\<close>

lemma query_unchanged:
  "fst (CheckEdge u v gr) = gr" "fst (CheckArc u v gr) = gr" "fst (CheckEdgeType u v gr) = gr"
  by (auto simp add: CheckEdge_def CheckArc_def CheckEdgeType_def getConnectionId_def
      assign_id_def Let_def split: option.splits)

lemma after_call_counters_exact: "counters_exact gr \<Longrightarrow> counters_exact (after_call c gr)"
  by (cases c)
    (simp_all add: AddNode_counters_exact AddEdge_counters_exact RemoveEdge_counters_exact
      AddArc_counters_exact RemoveArc_counters_exact query_unchanged RemoveNode_def)

lemma after_calls_counters_exact: "counters_exact gr \<Longrightarrow> counters_exact (after_calls cs gr)"
  by (induction cs arbitrary: gr) (simp_all add: after_call_counters_exact)

text \<open>The array of a fresh store has at most \<open>maxAlloc\<close> slots, all of them \<open>CT_NONE\<close>.\<close>

lemma NewMixedMatrix_counters_exact:
  assumes "NewMixedMatrix sz = Inr g0"
  shows "counters_exact g0"
proof -
  note c = NewMixedMatrix_Inr[OF assms]
  have "int (length (nodes g0)) \<le> maxAlloc" using c(6,7,8) by simp
  then have "int (length (nodes g0)) < 2 ^ 62" by (simp add: maxAlloc_def)
  then show ?thesis
    using c(4,5,8) by (simp add: counters_exact_def undirected_slots_def directed_slots_def)
qed

lemma counters_exact_sum:
  assumes "counters_exact gr"
  shows "edgesCnt gr + arcsCnt gr = occupied gr"
    and "add64 (arcsCnt gr) (edgesCnt gr) = edgesCnt gr + arcsCnt gr"
proof -
  from assms have e: "edgesCnt gr = undirected_slots gr" and a: "arcsCnt gr = directed_slots gr"
    and l: "int (length (nodes gr)) < 2 ^ 62"
    by (simp_all add: counters_exact_def)
  show "edgesCnt gr + arcsCnt gr = occupied gr" by (simp add: e a occupied_split)
  have "wrap64 (arcsCnt gr + edgesCnt gr) = arcsCnt gr + edgesCnt gr"
    by (rule wrap64_id) (use e a l slots_bounds[of gr] in simp_all)
  then show "add64 (arcsCnt gr) (edgesCnt gr) = edgesCnt gr + arcsCnt gr"
    by (simp add: add64_def add.commute)
qed

text \<open>
  Claim C6. In every store reached from a store that \<open>NewMixedMatrix\<close> returned by any
  sequence of calls of \<open>AddNode\<close>, \<open>RemoveNode\<close>, \<open>AddEdge\<close>, \<open>RemoveEdge\<close>, \<open>AddArc\<close>,
  \<open>RemoveArc\<close>, \<open>CheckEdge\<close>, \<open>CheckArc\<close> and \<open>CheckEdgeType\<close>, each of which may return or
  panic, \<open>edgesCnt + arcsCnt\<close> is the number of slots whose state is not \<open>CT_NONE\<close>, and
  \<open>ConnectionsCnt()\<close> returns \<open>EdgesCnt() + ArcsCnt()\<close>.
\<close>

theorem counts_invariant:
  assumes "NewMixedMatrix sz = Inr g0"
  shows "edgesCnt (after_calls cs g0) + arcsCnt (after_calls cs g0) = occupied (after_calls cs g0) \<and>
         ConnectionsCnt (after_calls cs g0)
           = EdgesCnt (after_calls cs g0) + ArcsCnt (after_calls cs g0)"
  using counters_exact_sum[OF after_calls_counters_exact[OF NewMixedMatrix_counters_exact[OF assms],
        of cs]]
  by (simp add: ConnectionsCnt_def EdgesCnt_def ArcsCnt_def)

theorem counts_invariant_witness:
  "NewMixedMatrix 4 = Inr store_new4 \<and>
   edgesCnt (after_calls demo_calls store_new4) + arcsCnt (after_calls demo_calls store_new4)
     = occupied (after_calls demo_calls store_new4) \<and>
   ConnectionsCnt (after_calls demo_calls store_new4)
     = EdgesCnt (after_calls demo_calls store_new4) + ArcsCnt (after_calls demo_calls store_new4) \<and>
   occupied (after_calls demo_calls store_new4) = 2"
proof -
  have "occupied (after_calls demo_calls store_new4) = 2"
    by (simp add: demo_calls_def eval_defs store_new4_def occupied_def)
  with counts_invariant[OF store_new4_built, of demo_calls] store_new4_built
  show ?thesis by blast
qed

section \<open>Iteration of the arc exclusion view\<close>

lemma arcs_loop_sends_nothing: "arcs_loop conn excluded ch = ch"
  by (induction excluded) simp_all

lemma conns_loop_sends_nothing: "conns_loop conns excluded ch = ch"
  by (induction conns arbitrary: ch) (simp_all add: arcs_loop_sends_nothing)

lemma ArcsFilter_ConnectionsIter_empty: "ArcsFilter_ConnectionsIter flt = []"
  by (simp add: ArcsFilter_ConnectionsIter_def conns_loop_sends_nothing)

text \<open>
  Claim C8: the code at a wrapped reader whose iteration delivers the one connection from 1 to
  2, and an empty list of excluded arcs. The claim asks for that connection; the view's
  \<open>ConnectionsIter\<close> delivers nothing, since it closes the channel without a send (lemma
  \<open>ArcsFilter_ConnectionsIter_empty\<close>: so it does for every reader and every list).
\<close>

theorem arcsFilter_iteration_drops_connection:
  "ArcsFilter_ConnectionsIter
     \<lparr> reader = \<lparr> reader_ConnectionsIter = [\<lparr> Tail = 1::nat, Head = 2 \<rparr>] \<rparr>, arcs = [] \<rparr> = []"
  by (simp add: ArcsFilter_ConnectionsIter_def)

end
